theory Spec2Isabelle
  imports Complex_Main "HOL-Library.Option_ord" "HOL-Library.Product_Lexorder"
    "HOL-Library.Multiset" "HOL-Library.Sublist" "HOL-Library.Log_Nat"
begin

section \<open>Data model (apps/affiliate/models.py)\<close>

text \<open>
  Timestamps are whole seconds on an integer axis, so \<open>timedelta(days=n)\<close> is
  \<open>n * 86400\<close>.  Prices are Python \<open>Decimal\<close>s, which are exact, hence rationals.
  Ratings are rationals too: the filter only compares them.  A nullable column is an
  \<open>option\<close>.  Only the columns that the cache pipeline reads or writes are kept; the
  descriptive ones (titles, URLs, SEO text, images) play no part in it.
\<close>

type_synonym time = int
type_synonym cat_id = nat

definition timedelta_days :: "int \<Rightarrow> time" where
  "timedelta_days n = n * 86400"

datatype category_status = CAT_ACTIVE | CAT_INACTIVE | CAT_DRAFT

record AffiliateCategory =
  pk :: cat_id
  parent :: "cat_id option"
  name :: string
  amazon_category_id :: string
  cat_status :: category_status
  is_featured :: bool
  display_order :: int

datatype product_status = ACTIVE | INACTIVE | DISCONTINUED | OUT_OF_STOCK

record AffiliateProduct =
  asin :: string
  price_gbp :: "rat option"
  rating :: "rat option"
  review_count :: int
  in_stock :: bool
  bsr_rank :: "int option"
  status :: product_status

record AffiliateProductFilter =
  min_rating :: rat
  min_review_count :: int
  max_bsr_percentile :: int
  uk_marketplace_only :: bool
  in_stock_only :: bool
  min_price :: "rat option"
  max_price :: "rat option"
  is_active :: bool

record AffiliateProductCache =
  cached_asins :: "string list"
  last_updated :: time
  next_refresh :: "time option"
  is_fresh :: bool
  product_count :: int
  uses_parent_fallback :: bool
  parent_fallback_asins :: "string list"
  last_error :: string
  error_count :: int

text \<open>
  The database: the category table (rows in the model's default ordering), the product
  table (rows in whatever order the backend yields them; the \<open>asin\<close> column is
  declared unique), and the two one-to-one relations of a category, keyed by the
  category's primary key.  A missing row is \<open>None\<close>; the ORM raises
  \<open>DoesNotExist\<close> there.
\<close>

record database =
  categories :: "AffiliateCategory list"
  products :: "AffiliateProduct list"
  filter_rules_of :: "cat_id \<rightharpoonup> AffiliateProductFilter"
  affiliate_product_cache :: "cat_id \<rightharpoonup> AffiliateProductCache"

definition unique_asins :: "AffiliateProduct list \<Rightarrow> bool" where
  "unique_asins rows = distinct (map asin rows)"

section \<open>Eligibility filter\<close>

subsection \<open>FilterService.apply_filter_rules (affiliate_services.py)\<close>

text \<open>
  Python truthiness decides the price block: \<open>if product.price_gbp:\<close> is false for
  \<open>None\<close> and for a zero \<open>Decimal\<close>, and \<open>filter_rules.min_price and ...\<close> skips
  a bound that is \<open>None\<close> or zero.
\<close>

definition below_min_price :: "rat \<Rightarrow> AffiliateProductFilter \<Rightarrow> bool" where
  "below_min_price price filter_rules =
     (case min_price filter_rules of None \<Rightarrow> False | Some m \<Rightarrow> m \<noteq> 0 \<and> price < m)"

definition above_max_price :: "rat \<Rightarrow> AffiliateProductFilter \<Rightarrow> bool" where
  "above_max_price price filter_rules =
     (case max_price filter_rules of None \<Rightarrow> False | Some m \<Rightarrow> m \<noteq> 0 \<and> price > m)"

definition apply_filter_rules :: "AffiliateProduct \<Rightarrow> AffiliateProductFilter \<Rightarrow> bool" where
  "apply_filter_rules product filter_rules =
     (if (case rating product of None \<Rightarrow> True | Some r \<Rightarrow> r < min_rating filter_rules)
        then False
      else if review_count product < min_review_count filter_rules then False
      else if in_stock_only filter_rules \<and> \<not> in_stock product then False
      else (case price_gbp product of
              None \<Rightarrow> True
            | Some price \<Rightarrow>
                if price = 0 then True
                else if below_min_price price filter_rules then False
                else if above_max_price price filter_rules then False
                else True))"

subsection \<open>AffiliateProduct.meets_filter_criteria (models.py)\<close>

text \<open>
  Here the rules are a dictionary read with \<open>.get\<close>: a missing \<open>min_rating\<close> is 4.0,
  a missing \<open>min_review_count\<close> is 200, a missing \<open>in_stock_only\<close> is \<open>None\<close>,
  which is false.
\<close>

record rules_dict =
  d_min_rating :: "rat option"
  d_min_review_count :: "int option"
  d_in_stock_only :: "bool option"

definition meets_filter_criteria :: "AffiliateProduct \<Rightarrow> rules_dict \<Rightarrow> bool" where
  "meets_filter_criteria self filter_rules =
     (if (case rating self of
            None \<Rightarrow> True
          | Some r \<Rightarrow> r < (case d_min_rating filter_rules of None \<Rightarrow> 4 | Some m \<Rightarrow> m))
        then False
      else if review_count self
                < (case d_min_review_count filter_rules of None \<Rightarrow> 200 | Some m \<Rightarrow> m)
        then False
      else if \<not> in_stock self
                \<and> (case d_in_stock_only filter_rules of None \<Rightarrow> False | Some b \<Rightarrow> b)
        then False
      else True)"

subsection \<open>FilterService.get_filter_rules\<close>

text \<open>
  The fields that the constructor call leaves out take the column defaults of the model.
\<close>

definition default_filter :: AffiliateProductFilter where
  "default_filter =
     \<lparr>min_rating = 4, min_review_count = 200, max_bsr_percentile = 10,
      uk_marketplace_only = True, in_stock_only = True, min_price = None,
      max_price = None, is_active = True\<rparr>"

definition get_filter_rules :: "database \<Rightarrow> AffiliateCategory \<Rightarrow> AffiliateProductFilter" where
  "get_filter_rules db category =
     (case filter_rules_of db (pk category) of
        Some rules \<Rightarrow> rules
      | None \<Rightarrow> default_filter)"

section \<open>Cache store\<close>

subsection \<open>AffiliateProductCache.is_cache_stale and CacheService.is_cache_fresh\<close>

text \<open>\<open>now\<close> is the value of \<open>timezone.now()\<close> at the call.\<close>

definition is_cache_stale :: "time \<Rightarrow> AffiliateProductCache \<Rightarrow> bool" where
  "is_cache_stale now self =
     (if \<not> is_fresh self then True
      else if (case next_refresh self of None \<Rightarrow> False | Some t \<Rightarrow> now > t) then True
      else False)"

definition is_cache_fresh :: "time \<Rightarrow> AffiliateProductCache \<Rightarrow> bool" where
  "is_cache_fresh now cache_obj =
     (if \<not> is_fresh cache_obj then False
      else if cached_asins cache_obj = [] then False
      else is_cache_stale now cache_obj = False)"

subsection \<open>AffiliateProductCache.get_products\<close>

text \<open>
  \<open>preserved_order\<close> is the dictionary comprehension over \<open>enumerate(asins)\<close>: a later
  occurrence of an identifier overwrites the earlier index.  The query keeps the rows whose
  identifier is in the list and whose status is ACTIVE, in the order the table yields
  them; \<open>sorted\<close> is stable, as \<open>sort_key\<close> is.
\<close>

definition preserved_order :: "string list \<Rightarrow> (string \<rightharpoonup> nat)" where
  "preserved_order asins = fold (\<lambda>(i, a) m. m(a \<mapsto> i)) (enumerate 0 asins) Map.empty"

definition order_key :: "(string \<rightharpoonup> nat) \<Rightarrow> AffiliateProduct \<Rightarrow> nat" where
  "order_key po x = (case po (asin x) of None \<Rightarrow> 999 | Some i \<Rightarrow> i)"

definition get_products :: "AffiliateProductCache \<Rightarrow> AffiliateProduct list \<Rightarrow> AffiliateProduct list" where
  "get_products self rows =
     (if cached_asins self = [] then []
      else
        let asins = cached_asins self;
            fetched = filter (\<lambda>p. asin p \<in> set asins \<and> status p = ACTIVE) rows
        in sort_key (order_key (preserved_order asins)) fetched)"

section \<open>Fallback resolver\<close>

subsection \<open>ProductService.get_top_products\<close>

text \<open>
  \<open>order_by("-rating", "-review_count")\<close> on the configured SQLite backend: descending,
  a NULL rating below every number, so last.  The backend fixes no order among equal keys;
  the model keeps the table's order there.
\<close>

definition top_key :: "AffiliateProduct \<Rightarrow> rat option \<times> int" where
  "top_key p = (rating p, review_count p)"

definition order_by_desc :: "('a \<Rightarrow> 'k::linorder) \<Rightarrow> 'a list \<Rightarrow> 'a list" where
  "order_by_desc k xs = rev (sort_key k (rev xs))"

definition get_top_products :: "AffiliateProduct list \<Rightarrow> nat \<Rightarrow> AffiliateProduct list" where
  "get_top_products rows limit =
     take limit (order_by_desc top_key (filter (\<lambda>p. status p = ACTIVE \<and> in_stock p) rows))"

subsection \<open>CacheService.get_fallback_products\<close>

text \<open>
  \<open>parent_attempt\<close> is the \<open>if category.parent: try: ... except: pass\<close> block: it
  yields \<open>Some\<close> list when the block returns, and \<open>None\<close> when control falls through
  (no parent, no cache row for the parent, or an empty identifier list).
\<close>

definition parent_attempt :: "database \<Rightarrow> AffiliateCategory \<Rightarrow> nat \<Rightarrow> AffiliateProduct list option" where
  "parent_attempt db category limit =
     (case parent category of
        None \<Rightarrow> None
      | Some parent_id \<Rightarrow>
          (case affiliate_product_cache db parent_id of
             None \<Rightarrow> None
           | Some parent_cache \<Rightarrow>
               if cached_asins parent_cache \<noteq> []
               then Some (take limit (get_products parent_cache (products db)))
               else None))"

definition get_fallback_products :: "database \<Rightarrow> AffiliateCategory \<Rightarrow> nat \<Rightarrow> AffiliateProduct list" where
  "get_fallback_products db category limit =
     (case parent_attempt db category limit of
        Some result \<Rightarrow> result
      | None \<Rightarrow> get_top_products (products db) limit)"

section \<open>Python numbers\<close>

text \<open>
  The ranker multiplies Python numbers, so their arithmetic is part of the model.  A
  \<open>float\<close> is an IEEE 754 binary64 value, given here by its exact rational value or as
  one of the two infinities; an \<open>int\<close> is unbounded.  NaN is not a value of the model:
  an ordering of keys that contain NaN depends on the merge strategy of Python's sort.
  The one product of the values below that IEEE defines as NaN, infinity times zero, is
  reported as \<open>Not_a_number\<close>, where the model stops.
\<close>

datatype ext = NInf | Fin rat | PInf

instantiation ext :: linorder
begin

fun less_eq_ext :: "ext \<Rightarrow> ext \<Rightarrow> bool" where
  "less_eq_ext NInf y = True"
| "less_eq_ext (Fin a) NInf = False"
| "less_eq_ext (Fin a) (Fin b) = (a \<le> b)"
| "less_eq_ext (Fin a) PInf = True"
| "less_eq_ext PInf NInf = False"
| "less_eq_ext PInf (Fin b) = False"
| "less_eq_ext PInf PInf = True"

definition less_ext :: "ext \<Rightarrow> ext \<Rightarrow> bool" where
  "less_ext x y = (x \<le> y \<and> \<not> y \<le> x)"

instance
proof
  fix x y z :: ext
  show "(x < y) = (x \<le> y \<and> \<not> y \<le> x)"
    by (simp add: less_ext_def)
  show "x \<le> x"
    by (cases x) simp_all
  show "x \<le> y \<Longrightarrow> y \<le> z \<Longrightarrow> x \<le> z"
    by (cases x; cases y; cases z) simp_all
  show "x \<le> y \<Longrightarrow> y \<le> x \<Longrightarrow> x = y"
    by (cases x; cases y) simp_all
  show "x \<le> y \<or> y \<le> x"
    by (cases x; cases y) auto
qed

end

text \<open>
  Rounding of an exact value to binary64, to nearest with ties to even.  \<open>bexp x\<close> is
  the exponent \<open>e\<close> with \<open>2\<^sup>e \<le> x < 2\<^sup>e\<^sup>+\<^sup>1\<close> of a positive \<open>x\<close>; below the
  smallest normal exponent -1022 the spacing stays that of the subnormals; a result of
  \<open>2\<^sup>1\<^sup>0\<^sup>2\<^sup>4\<close> or more overflows to an infinity.
\<close>

definition pow2 :: "int \<Rightarrow> rat" where
  "pow2 k = (if 0 \<le> k then 2 ^ nat k else 1 / 2 ^ nat (- k))"

definition bexp :: "rat \<Rightarrow> int" where
  "bexp x =
     (let (a, b) = quotient_of x; k = bitlen a - bitlen b
      in if pow2 k \<le> x then k else k - 1)"

definition round_half_even :: "rat \<Rightarrow> int" where
  "round_half_even y =
     (let f = \<lfloor>y\<rfloor>; d = y - of_int f
      in if d < 1 / 2 then f
         else if 1 / 2 < d then f + 1
         else if even f then f else f + 1)"

definition round_double :: "rat \<Rightarrow> ext" where
  "round_double x =
     (if x = 0 then Fin 0
      else
        let a = \<bar>x\<bar>;
            e = max (bexp a) (- 1022);
            q = pow2 (e - 52);
            n = round_half_even (a / q)
        in if 1023 < e \<or> (e = 1023 \<and> 2 ^ 53 \<le> n)
             then (if 0 < x then PInf else NInf)
           else Fin (if 0 < x then of_int n * q else - (of_int n * q)))"

text \<open>
  The values that a product dictionary or a weights dictionary may hold under the keys
  that the ranker reads: \<open>None\<close>, an \<open>int\<close> or a \<open>float\<close>.
\<close>

datatype pyval = PyNone | PyInt int | PyFloat ext

datatype error = Exception string | TypeError | OverflowError | KeyError | Not_a_number

definition and_then :: "error + 'a \<Rightarrow> ('a \<Rightarrow> error + 'b) \<Rightarrow> error + 'b" where
  "and_then r f = (case r of Inl e \<Rightarrow> Inl e | Inr v \<Rightarrow> f v)"

text \<open>
  The conversion of an \<open>int\<close> operand to \<open>float\<close> rounds, and raises
  \<open>OverflowError\<close> when the integer is too large.
\<close>

definition float_of_int :: "int \<Rightarrow> error + ext" where
  "float_of_int n =
     (case round_double (of_int n) of Fin r \<Rightarrow> Inr (Fin r) | NInf \<Rightarrow> Inl OverflowError
      | PInf \<Rightarrow> Inl OverflowError)"

fun fmul :: "ext \<Rightarrow> ext \<Rightarrow> error + ext" where
  "fmul (Fin a) (Fin b) = Inr (round_double (a * b))"
| "fmul (Fin a) PInf = (if a = 0 then Inl Not_a_number else Inr (if 0 < a then PInf else NInf))"
| "fmul (Fin a) NInf = (if a = 0 then Inl Not_a_number else Inr (if 0 < a then NInf else PInf))"
| "fmul PInf (Fin b) = (if b = 0 then Inl Not_a_number else Inr (if 0 < b then PInf else NInf))"
| "fmul NInf (Fin b) = (if b = 0 then Inl Not_a_number else Inr (if 0 < b then NInf else PInf))"
| "fmul PInf PInf = Inr PInf"
| "fmul PInf NInf = Inr NInf"
| "fmul NInf PInf = Inr NInf"
| "fmul NInf NInf = Inr PInf"

fun fneg :: "ext \<Rightarrow> ext" where
  "fneg NInf = PInf"
| "fneg (Fin a) = Fin (- a)"
| "fneg PInf = NInf"

text \<open>
  \<open>a * b\<close>, as its numeric value: exact for two \<open>int\<close>s, a binary64 product once a
  \<open>float\<close> takes part, \<open>TypeError\<close> when an operand is \<open>None\<close>.
\<close>

fun py_mul :: "pyval \<Rightarrow> pyval \<Rightarrow> error + ext" where
  "py_mul PyNone b = Inl TypeError"
| "py_mul (PyInt m) PyNone = Inl TypeError"
| "py_mul (PyFloat x) PyNone = Inl TypeError"
| "py_mul (PyInt m) (PyInt n) = Inr (Fin (of_int (m * n)))"
| "py_mul (PyInt m) (PyFloat y) = and_then (float_of_int m) (\<lambda>x. fmul x y)"
| "py_mul (PyFloat x) (PyInt n) = and_then (float_of_int n) (\<lambda>y. fmul x y)"
| "py_mul (PyFloat x) (PyFloat y) = fmul x y"

section \<open>Ranker (apps/core/utils.py)\<close>

text \<open>
  The products handed to the ranker are the dictionaries of the product source.  For the
  three keys that are ranked on, \<open>None\<close> is a missing key and \<open>Some v\<close> a key that
  holds \<open>v\<close>, which may itself be Python's \<open>None\<close>; for \<open>asin\<close> a missing key and
  a \<open>None\<close> behave alike and are both \<open>None\<close>.  \<open>dict_get\<close> is \<open>.get\<close> with its
  default, \<open>subscript\<close> is \<open>weights[...]\<close>.
\<close>

record product_dict =
  d_asin :: "string option"
  d_rating :: "pyval option"
  d_review_count :: "pyval option"
  d_bsr_rank :: "pyval option"

record weights_dict =
  w_rating :: "pyval option"
  w_reviews :: "pyval option"
  w_bsr :: "pyval option"

definition dict_get :: "pyval option \<Rightarrow> pyval \<Rightarrow> pyval" where
  "dict_get entry dflt = (case entry of None \<Rightarrow> dflt | Some v \<Rightarrow> v)"

definition subscript :: "pyval option \<Rightarrow> error + pyval" where
  "subscript entry = (case entry of None \<Rightarrow> Inl KeyError | Some v \<Rightarrow> Inr v)"

text \<open>The literals 0.4 and 0.3 are the binary64 values nearest to 2/5 and 3/10.\<close>

definition default_weights :: weights_dict where
  "default_weights =
     \<lparr>w_rating = Some (PyFloat (round_double (2 / 5))),
      w_reviews = Some (PyFloat (round_double (3 / 10))),
      w_bsr = Some (PyFloat (round_double (3 / 10)))\<rparr>"

text \<open>\<open>if not weights\<close>: \<open>None\<close> and the empty dictionary select the defaults.\<close>

definition effective_weights :: "weights_dict option \<Rightarrow> weights_dict" where
  "effective_weights weights =
     (case weights of
        None \<Rightarrow> default_weights
      | Some w \<Rightarrow>
          if w_rating w = None \<and> w_reviews w = None \<and> w_bsr w = None then default_weights
          else w)"

text \<open>
  The key of one product, its three components evaluated from left to right; the first
  exception ends the evaluation.
\<close>

definition weighted :: "pyval \<Rightarrow> pyval option \<Rightarrow> error + ext" where
  "weighted v entry = and_then (subscript entry) (py_mul v)"

definition rank_key :: "weights_dict \<Rightarrow> product_dict \<Rightarrow> error + ext \<times> ext \<times> ext" where
  "rank_key weights p =
     and_then (weighted (dict_get (d_rating p) (PyInt 0)) (w_rating weights)) (\<lambda>a.
     and_then (weighted (dict_get (d_review_count p) (PyInt 0)) (w_reviews weights)) (\<lambda>b.
     and_then (weighted (dict_get (d_bsr_rank p) (PyFloat PInf)) (w_bsr weights)) (\<lambda>c.
     Inr (fneg a, fneg b, c))))"

text \<open>
  \<open>sorted\<close> computes the key of every element first, in list order, and then sorts
  stably on the keys; tuples compare lexicographically.
\<close>

fun keyed :: "weights_dict \<Rightarrow> product_dict list \<Rightarrow> error + ((ext \<times> ext \<times> ext) \<times> product_dict) list" where
  "keyed weights [] = Inr []"
| "keyed weights (p # ps) =
     and_then (rank_key weights p) (\<lambda>k.
     and_then (keyed weights ps) (\<lambda>rest. Inr ((k, p) # rest)))"

definition rank_products :: "product_dict list \<Rightarrow> weights_dict option \<Rightarrow> error + product_dict list" where
  "rank_products product_list weights =
     (case keyed (effective_weights weights) product_list of
        Inl e \<Rightarrow> Inl e
      | Inr kps \<Rightarrow> Inr (map snd (sort_key fst kps)))"

section \<open>Refresh orchestrator (apps/core/tasks.py)\<close>

text \<open>
  The product source is a collaborator: it is given the browse node
  (\<open>category.amazon_category_id or category.id\<close>) and the two hints, and either raises
  or returns product dictionaries.  The client shipped in the repository is the instance
  that always returns the empty list.
\<close>

datatype node = Browse_node string | Category_pk cat_id

type_synonym api_client = "node \<Rightarrow> rat \<times> int \<Rightarrow> error + product_dict list"

definition placeholder_client :: api_client where
  "placeholder_client category_node filters = Inr []"

definition category_node_of :: "AffiliateCategory \<Rightarrow> node" where
  "category_node_of category =
     (if amazon_category_id category \<noteq> [] then Browse_node (amazon_category_id category)
      else Category_pk (pk category))"

text \<open>\<open>[p.get("asin") for p in ranked if p.get("asin")]\<close>: an absent or empty
  identifier is dropped.\<close>

definition extract_asins :: "product_dict list \<Rightarrow> string list" where
  "extract_asins ranked =
     concat (map (\<lambda>p. case d_asin p of None \<Rightarrow> [] | Some a \<Rightarrow> if a = [] then [] else [a]) ranked)"

text \<open>
  \<open>update_or_create(category=category, defaults={...})\<close>: an existing row has the four
  listed columns overwritten (and \<open>last_updated\<close>, which is \<open>auto_now\<close>); a new row
  takes the column defaults elsewhere.
\<close>

definition update_or_create :: "AffiliateProductCache option \<Rightarrow> string list \<Rightarrow> time \<Rightarrow> AffiliateProductCache" where
  "update_or_create existing asins now =
     (case existing of
        Some row \<Rightarrow>
          row\<lparr>cached_asins := take 20 asins,
              product_count := int (length asins),
              is_fresh := True,
              next_refresh := Some (now + timedelta_days 1),
              last_updated := now\<rparr>
      | None \<Rightarrow>
          \<lparr>cached_asins = take 20 asins,
           last_updated = now,
           next_refresh = Some (now + timedelta_days 1),
           is_fresh = True,
           product_count = int (length asins),
           uses_parent_fallback = False,
           parent_fallback_asins = [],
           last_error = [],
           error_count = 0\<rparr>)"

text \<open>
  \<open>_refresh_category_cache\<close>.  Without a rule row it logs a warning and returns; an
  exception of the product source or of the ranker propagates to the caller.
\<close>

definition refresh_category_cache :: "api_client \<Rightarrow> time \<Rightarrow> AffiliateCategory \<Rightarrow> database \<Rightarrow> error + database" where
  "refresh_category_cache api now category db =
     (case filter_rules_of db (pk category) of
        None \<Rightarrow> Inr db
      | Some filter_rules \<Rightarrow>
          (case api (category_node_of category)
                    (min_rating filter_rules, min_review_count filter_rules) of
             Inl e \<Rightarrow> Inl e
           | Inr fetched \<Rightarrow>
               (case rank_products fetched None of
                  Inl e \<Rightarrow> Inl e
                | Inr ranked \<Rightarrow>
                    let asins = extract_asins ranked
                    in Inr (db\<lparr>affiliate_product_cache :=
                                  (affiliate_product_cache db)
                                    (pk category \<mapsto>
                                       update_or_create
                                         (affiliate_product_cache db (pk category))
                                         asins now)\<rparr>))))"

text \<open>
  The loop of \<open>refresh_affiliate_products\<close>, threading the database and the two local
  counters.  \<open>clock c\<close> is the instant at which the refresh of category \<open>c\<close> reads
  \<open>timezone.now()\<close>.  The enclosing \<open>try\<close> block, which retries the whole task,
  fires only when the selection of categories or the task log raises; neither does here,
  so the retry does not appear.
\<close>

record summary =
  refreshed :: nat
  errors :: nat

fun refresh_loop :: "api_client \<Rightarrow> (cat_id \<Rightarrow> time) \<Rightarrow> AffiliateCategory list \<Rightarrow> database \<times> summary \<Rightarrow> database \<times> summary" where
  "refresh_loop api clock [] st = st"
| "refresh_loop api clock (category # rest) (db, counts) =
     (case refresh_category_cache api (clock (pk category)) category db of
        Inr db' \<Rightarrow> refresh_loop api clock rest (db', counts\<lparr>refreshed := refreshed counts + 1\<rparr>)
      | Inl e \<Rightarrow> refresh_loop api clock rest (db, counts\<lparr>errors := errors counts + 1\<rparr>))"

text \<open>
  The choice of categories: an explicit (non-zero) identifier, the first twenty featured
  active categories for the tier \<open>top\<close>, every active category otherwise.
\<close>

definition select_categories :: "database \<Rightarrow> cat_id option \<Rightarrow> string \<Rightarrow> AffiliateCategory list" where
  "select_categories db category_id tier =
     (if (case category_id of None \<Rightarrow> False | Some i \<Rightarrow> i \<noteq> 0)
        then filter (\<lambda>c. Some (pk c) = category_id) (categories db)
      else if tier = ''top''
        then take 20 (filter (\<lambda>c. cat_status c = CAT_ACTIVE \<and> is_featured c) (categories db))
      else filter (\<lambda>c. cat_status c = CAT_ACTIVE) (categories db))"

definition refresh_affiliate_products :: "api_client \<Rightarrow> (cat_id \<Rightarrow> time) \<Rightarrow> cat_id option \<Rightarrow> string \<Rightarrow> database \<Rightarrow> database \<times> summary" where
  "refresh_affiliate_products api clock category_id tier db =
     refresh_loop api clock (select_categories db category_id tier)
       (db, \<lparr>refreshed = 0, errors = 0\<rparr>)"

text \<open>
  \<open>cleanup_expired_categories\<close>, the only other writer of cache rows: it clears the
  freshness flag of every row whose \<open>product_count\<close> is 0 and saves the row.
\<close>

definition cleanup_expired_categories :: "time \<Rightarrow> database \<Rightarrow> database" where
  "cleanup_expired_categories now db =
     db\<lparr>affiliate_product_cache :=
          (\<lambda>k. map_option
                 (\<lambda>cache_obj. if product_count cache_obj = 0
                               then cache_obj\<lparr>is_fresh := False, last_updated := now\<rparr>
                               else cache_obj)
                 (affiliate_product_cache db k))\<rparr>"

text \<open>
  The periods of the two scheduled runs, in seconds (\<open>CELERY_BEAT_SCHEDULE\<close> in
  config/settings.py).
\<close>

definition beat_schedule :: "string \<Rightarrow> int" where
  "beat_schedule tier = (if tier = ''top'' then 86400 else 604800)"

section \<open>Notions used to state the properties\<close>

text \<open>
  Resolution as the specification words it: walk the stored identifiers in order, look
  each one up among the ACTIVE rows of the product table, and leave out those that have
  no such row.
\<close>

definition resolve :: "AffiliateProduct list \<Rightarrow> string \<Rightarrow> AffiliateProduct option" where
  "resolve rows a = find (\<lambda>p. asin p = a \<and> status p = ACTIVE) rows"

definition in_stored_order :: "AffiliateProduct list \<Rightarrow> string list \<Rightarrow> AffiliateProduct list" where
  "in_stored_order rows asins = List.map_filter (resolve rows) asins"

text \<open>The dictionary of positions, built from position \<open>n\<close> on top of a dictionary \<open>m0\<close>.\<close>

definition index_from :: "nat \<Rightarrow> string list \<Rightarrow> (string \<rightharpoonup> nat) \<Rightarrow> (string \<rightharpoonup> nat)" where
  "index_from n xs m0 = fold (\<lambda>(i, a) m. m(a \<mapsto> i)) (enumerate n xs) m0"

text \<open>
  The order of the global top products in the specification's words: \<open>p\<close> may stand
  before \<open>q\<close> when its rating is higher, or the ratings are equal and its review count is
  not lower.  An absent rating is below every rating.
\<close>

definition top_order :: "AffiliateProduct \<Rightarrow> AffiliateProduct \<Rightarrow> bool" where
  "top_order p q =
     (rating p > rating q \<or> (rating p = rating q \<and> review_count p \<ge> review_count q))"













text \<open>
  No code of the repository writes \<open>error_count\<close> or \<open>last_error\<close>, so every cache
  row that the code can have produced has them at their column defaults.
\<close>

definition untouched_error_fields :: "AffiliateProductCache \<Rightarrow> bool" where
  "untouched_error_fields row = (error_count row = 0 \<and> last_error row = [])"

definition error_free :: "database \<Rightarrow> bool" where
  "error_free db =
     (\<forall>k row. affiliate_product_cache db k = Some row \<longrightarrow> untouched_error_fields row)"

text \<open>
  The cache row of a category after its refresh has run alone on a database (the row it
  had, when the refresh raises), and whether that refresh raises.
\<close>

definition row_after_refresh :: "api_client \<Rightarrow> time \<Rightarrow> AffiliateCategory \<Rightarrow> database \<Rightarrow> AffiliateProductCache option" where
  "row_after_refresh api now category db =
     (case refresh_category_cache api now category db of
        Inl e \<Rightarrow> affiliate_product_cache db (pk category)
      | Inr db' \<Rightarrow> affiliate_product_cache db' (pk category))"

definition raises :: "api_client \<Rightarrow> time \<Rightarrow> AffiliateCategory \<Rightarrow> database \<Rightarrow> bool" where
  "raises api now category db = isl (refresh_category_cache api now category db)"

section \<open>Example data\<close>

definition product_row :: "string \<Rightarrow> rat \<Rightarrow> int \<Rightarrow> bool \<Rightarrow> product_status \<Rightarrow> AffiliateProduct" where
  "product_row a r n s st =
     \<lparr>asin = a, price_gbp = None, rating = Some r, review_count = n, in_stock = s,
      bsr_rank = None, status = st\<rparr>"

definition cache_row :: "string list \<Rightarrow> string \<Rightarrow> int \<Rightarrow> AffiliateProductCache" where
  "cache_row asins msg n =
     \<lparr>cached_asins = asins, last_updated = 0, next_refresh = Some 86400, is_fresh = True,
      product_count = int (length asins), uses_parent_fallback = False,
      parent_fallback_asins = [], last_error = msg, error_count = n\<rparr>"

definition category_row :: "cat_id \<Rightarrow> cat_id option \<Rightarrow> string \<Rightarrow> bool \<Rightarrow> AffiliateCategory" where
  "category_row i par node_id featured =
     \<lparr>pk = i, parent = par, name = ''category'', amazon_category_id = node_id,
      cat_status = CAT_ACTIVE, is_featured = featured, display_order = int i\<rparr>"

definition product_entry :: "string \<Rightarrow> rat \<Rightarrow> int \<Rightarrow> product_dict" where
  "product_entry a r n =
     \<lparr>d_asin = Some a, d_rating = Some (PyFloat (Fin r)), d_review_count = Some (PyInt n),
      d_bsr_rank = None\<rparr>"

text \<open>
  Four active categories: 1 (featured, top level), 2 and 3 (children of 1, not featured)
  and 4, which has no rule row.  Categories 2 and 3 have cache rows written at time 0,
  the one of category 3 with no identifiers.  The product source raises for the node of
  category 2.
\<close>

definition example_db :: database where
  "example_db =
     \<lparr>categories =
        [category_row 1 None ''N1'' True, category_row 2 (Some 1) ''N2'' False,
         category_row 3 (Some 1) [] False, category_row 4 None ''N4'' False],
      products =
        [product_row ''A'' 4 900 True ACTIVE, product_row ''B'' (9 / 2) 300 True DISCONTINUED,
         product_row ''C'' (9 / 2) 300 True ACTIVE, product_row ''D'' (9 / 2) 500 True ACTIVE,
         product_row ''E'' 5 10 False ACTIVE],
      filter_rules_of = [1 \<mapsto> default_filter, 2 \<mapsto> default_filter, 3 \<mapsto> default_filter],
      affiliate_product_cache =
        [2 \<mapsto> cache_row [''C'', ''A'', ''B'', ''Z''] [] 0, 3 \<mapsto> cache_row [] [] 0]\<rparr>"

definition example_api :: api_client where
  "example_api category_node filters =
     (if category_node = Browse_node ''N2'' then Inl (Exception ''source unavailable'')
      else Inr [product_entry ''P'' (9 / 2) 300, product_entry ''Q'' (9 / 2) 500])"

section \<open>Properties of the eligibility filter\<close>

lemma meets_filter_criteria_rating:
  "rating p = None \<or> (\<exists>x. rating p = Some x \<and> x < (case d_min_rating d of None \<Rightarrow> 4 | Some m \<Rightarrow> m))
     \<Longrightarrow> meets_filter_criteria p d = False"
  by (auto simp: meets_filter_criteria_def)

text \<open>
  Claim C7.  Whenever the product's rating is absent or strictly below the rule's minimum
  rating, \<open>apply_filter_rules\<close> returns false, whatever the other fields of the product
  and of the rule are.
\<close>

theorem low_rating_rejected:
  assumes "rating p = None \<or> (\<exists>x. rating p = Some x \<and> x < min_rating r)"
  shows "apply_filter_rules p r = False"
  using assms by (auto simp: apply_filter_rules_def)

theorem low_rating_rejected_witness:
  "apply_filter_rules
     \<lparr>asin = ''B00TEST001'', price_gbp = Some 25, rating = Some (39 / 10),
      review_count = 10000, in_stock = True, bsr_rank = Some 1, status = ACTIVE\<rparr>
     default_filter = False"
proof (rule low_rating_rejected)
  let ?p = "\<lparr>asin = ''B00TEST001'', price_gbp = Some 25, rating = Some (39 / 10),
      review_count = 10000, in_stock = True, bsr_rank = Some 1, status = ACTIVE\<rparr>"
  have "rating ?p = Some (39 / 10) \<and> (39 / 10 :: rat) < min_rating default_filter"
    by (simp add: default_filter_def)
  then show "rating ?p = None \<or> (\<exists>x. rating ?p = Some x \<and> x < min_rating default_filter)"
    by blast
qed

text \<open>
  Claim C9.  A product whose price is absent is never rejected on price grounds: its
  verdict is exactly that of the rating, review-count and stock checks, so it is accepted
  whenever it passes these three, and the verdict is the same whatever bounds
  \<open>min_price\<close> and \<open>max_price\<close> the rule carries.  The bounds are consulted only for
  a product that has a price.
\<close>

theorem absent_price_never_rejected:
  assumes "price_gbp p = None"
  shows "apply_filter_rules p r =
           ((\<exists>x. rating p = Some x \<and> min_rating r \<le> x)
            \<and> min_review_count r \<le> review_count p
            \<and> (in_stock_only r \<longrightarrow> in_stock p))
    \<and> apply_filter_rules p (r\<lparr>min_price := lo, max_price := hi\<rparr>) = apply_filter_rules p r"
  using assms by (cases "rating p") (auto simp: apply_filter_rules_def)

theorem absent_price_never_rejected_witness:
  "apply_filter_rules
     \<lparr>asin = ''B00TEST002'', price_gbp = None, rating = Some (9 / 2),
      review_count = 500, in_stock = True, bsr_rank = None, status = ACTIVE\<rparr>
     (default_filter\<lparr>min_price := Some 10, max_price := Some 20\<rparr>) = True"
proof -
  let ?p = "\<lparr>asin = ''B00TEST002'', price_gbp = None, rating = Some (9 / 2),
      review_count = 500, in_stock = True, bsr_rank = None, status = ACTIVE\<rparr>"
  let ?r = "default_filter\<lparr>min_price := Some 10, max_price := Some 20\<rparr>"
  have "price_gbp ?p = None"
    by simp
  from absent_price_never_rejected [OF this, of ?r]
  have v: "apply_filter_rules ?p ?r =
           ((\<exists>x. rating ?p = Some x \<and> min_rating ?r \<le> x)
            \<and> min_review_count ?r \<le> review_count ?p
            \<and> (in_stock_only ?r \<longrightarrow> in_stock ?p))"
    by blast
  have "rating ?p = Some (9 / 2) \<and> min_rating ?r \<le> 9 / 2"
    by (simp add: default_filter_def)
  then have ex: "\<exists>x. rating ?p = Some x \<and> min_rating ?r \<le> x"
    by blast
  have rest: "min_review_count ?r \<le> review_count ?p \<and> (in_stock_only ?r \<longrightarrow> in_stock ?p)"
    by (simp add: default_filter_def)
  from v ex rest show ?thesis
    by blast
qed

text \<open>
  Claim C10.  The verdict of \<open>apply_filter_rules\<close> depends on the rule only through
  \<open>min_rating\<close>, \<open>min_review_count\<close>, \<open>in_stock_only\<close>, \<open>min_price\<close> and
  \<open>max_price\<close>: two rules that agree on these five fields give the same verdict for
  every product, however they differ in \<open>max_bsr_percentile\<close>,
  \<open>uk_marketplace_only\<close> and \<open>is_active\<close>.
\<close>

theorem verdict_depends_on_five_fields:
  assumes "min_rating r1 = min_rating r2"
    and "min_review_count r1 = min_review_count r2"
    and "in_stock_only r1 = in_stock_only r2"
    and "min_price r1 = min_price r2"
    and "max_price r1 = max_price r2"
  shows "apply_filter_rules p r1 = apply_filter_rules p r2"
proof -
  have lo: "below_min_price x r1 = below_min_price x r2" for x
    using assms(4) by (simp add: below_min_price_def)
  have hi: "above_max_price x r1 = above_max_price x r2" for x
    using assms(5) by (simp add: above_max_price_def)
  show ?thesis
    unfolding apply_filter_rules_def lo hi assms(1-3) by (rule refl)
qed

theorem verdict_depends_on_five_fields_witness:
  "apply_filter_rules
     \<lparr>asin = ''B00TEST003'', price_gbp = Some 15, rating = Some (9 / 2),
      review_count = 500, in_stock = True, bsr_rank = Some 90000, status = ACTIVE\<rparr>
     (default_filter\<lparr>max_bsr_percentile := 1, uk_marketplace_only := False, is_active := False\<rparr>)
   = apply_filter_rules
     \<lparr>asin = ''B00TEST003'', price_gbp = Some 15, rating = Some (9 / 2),
      review_count = 500, in_stock = True, bsr_rank = Some 90000, status = ACTIVE\<rparr>
     default_filter"
  by (rule verdict_depends_on_five_fields) simp_all

section \<open>Properties of the cache store\<close>

text \<open>
  Claim C1, as the code has it.  \<open>is_cache_stale\<close> reports stale exactly when the
  freshness flag is false or the next-refresh instant is set and has passed; it does not
  look at the identifier list.  The emptiness of the list is checked one level up:
  \<open>CacheService.is_cache_fresh\<close> returns false exactly when the list is empty, or the
  flag is false, or the next-refresh instant is set and has passed.
\<close>

theorem staleness_conditions:
  "is_cache_stale now c = (\<not> is_fresh c \<or> (\<exists>t. next_refresh c = Some t \<and> now > t))
   \<and> (\<not> is_cache_fresh now c) =
       (cached_asins c = [] \<or> \<not> is_fresh c \<or> (\<exists>t. next_refresh c = Some t \<and> now > t))"
  by (auto simp: is_cache_stale_def is_cache_fresh_def split: option.splits)

theorem staleness_conditions_witness:
  "is_cache_stale 150
     \<lparr>cached_asins = [''B00TEST004''], last_updated = 0, next_refresh = Some 100,
      is_fresh = True, product_count = 1, uses_parent_fallback = False,
      parent_fallback_asins = [], last_error = [], error_count = 0\<rparr>
   \<and> \<not> is_cache_fresh 150
     \<lparr>cached_asins = [''B00TEST004''], last_updated = 0, next_refresh = Some 100,
      is_fresh = True, product_count = 1, uses_parent_fallback = False,
      parent_fallback_asins = [], last_error = [], error_count = 0\<rparr>"
  using staleness_conditions [of 150
     "\<lparr>cached_asins = [''B00TEST004''], last_updated = 0, next_refresh = Some 100,
      is_fresh = True, product_count = 1, uses_parent_fallback = False,
      parent_fallback_asins = [], last_error = [], error_count = 0\<rparr>"]
  by simp

text \<open>
  The claim as stated fails for \<open>is_cache_stale\<close>: a cache that is flagged fresh, whose
  next refresh lies in the future and whose identifier list is empty is not reported
  stale.
\<close>

theorem empty_cache_not_stale:
  "is_cache_stale 50
     \<lparr>cached_asins = [], last_updated = 0, next_refresh = Some 100, is_fresh = True,
      product_count = 0, uses_parent_fallback = False, parent_fallback_asins = [],
      last_error = [], error_count = 0\<rparr> = False"
  by (simp add: is_cache_stale_def)

section \<open>Properties of identifier resolution\<close>

lemma index_from_Nil: "index_from n [] m0 = m0"
  by (simp add: index_from_def)

lemma index_from_Cons: "index_from n (x # xs) m0 = index_from (Suc n) xs (m0(x \<mapsto> n))"
  by (simp add: index_from_def)

lemma index_from_notin:
  "a \<notin> set xs \<Longrightarrow> index_from n xs m0 a = m0 a"
  by (induction xs arbitrary: n m0) (simp_all add: index_from_Nil index_from_Cons)

lemma index_from_in:
  "a \<in> set xs \<Longrightarrow> \<exists>i. index_from n xs m0 a = Some i \<and> n \<le> i \<and> i < n + length xs \<and> xs ! (i - n) = a"
proof (induction xs arbitrary: n m0)
  case Nil
  then show ?case by simp
next
  case (Cons x xs)
  show ?case
  proof (cases "a \<in> set xs")
    case True
    from Cons.IH [OF True, of "Suc n" "m0(x \<mapsto> n)"]
    obtain i where i: "index_from (Suc n) xs (m0(x \<mapsto> n)) a = Some i" "Suc n \<le> i"
      "i < Suc n + length xs" "xs ! (i - Suc n) = a"
      by blast
    from i(2) have "i - n = Suc (i - Suc n)"
      by arith
    then have "(x # xs) ! (i - n) = xs ! (i - Suc n)"
      by simp
    with i show ?thesis by (auto simp: index_from_Cons)
  next
    case False
    with Cons.prems have ax: "a = x" by simp
    with False show ?thesis
      by (simp add: index_from_Cons index_from_notin)
  qed
qed

lemma index_from_sorted:
  "sorted_wrt (<) (map (\<lambda>a. the (index_from n xs m0 a)) (remdups xs))"
proof (induction xs arbitrary: n m0)
  case Nil
  then show ?case by simp
next
  case (Cons x xs)
  show ?case
  proof (cases "x \<in> set xs")
    case True
    then have "remdups (x # xs) = remdups xs" by simp
    then show ?thesis using Cons.IH [of "Suc n" "m0(x \<mapsto> n)"]
      by (simp only: index_from_Cons)
  next
    case False
    have hd: "index_from (Suc n) xs (m0(x \<mapsto> n)) x = Some n"
      using False by (simp add: index_from_notin)
    have tl: "n < the (index_from (Suc n) xs (m0(x \<mapsto> n)) a)" if "a \<in> set xs" for a
      using index_from_in [OF that, of "Suc n" "m0(x \<mapsto> n)"] by auto
    have first: "\<forall>k \<in> set (map (\<lambda>a. the (index_from n (x # xs) m0 a)) (remdups xs)).
                   the (index_from n (x # xs) m0 x) < k"
      using hd tl by (auto simp only: index_from_Cons set_map set_remdups option.sel)
    have rest: "sorted_wrt (<) (map (\<lambda>a. the (index_from n (x # xs) m0 a)) (remdups xs))"
      using Cons.IH [of "Suc n" "m0(x \<mapsto> n)"] by (simp only: index_from_Cons)
    have "remdups (x # xs) = x # remdups xs"
      using False by simp
    then show ?thesis
      using first rest by (simp only: list.map sorted_wrt.simps)
  qed
qed

lemma preserved_order_in:
  "a \<in> set asins \<Longrightarrow> \<exists>i. preserved_order asins a = Some i \<and> i < length asins \<and> asins ! i = a"
  using index_from_in [of a asins 0 Map.empty] by (auto simp: preserved_order_def index_from_def)

lemma preserved_order_sorted:
  "sorted (map (\<lambda>a. the (preserved_order asins a)) (remdups asins))"
  using index_from_sorted [of 0 asins Map.empty]
  by (simp add: preserved_order_def index_from_def strict_sorted_iff)

lemma order_key_inj:
  assumes "unique_asins rows"
  shows "inj_on (order_key (preserved_order asins))
           (set (filter (\<lambda>p. asin p \<in> set asins \<and> status p = ACTIVE) rows))"
proof (rule inj_onI)
  fix p q
  assume p: "p \<in> set (filter (\<lambda>p. asin p \<in> set asins \<and> status p = ACTIVE) rows)"
    and q: "q \<in> set (filter (\<lambda>p. asin p \<in> set asins \<and> status p = ACTIVE) rows)"
    and eq: "order_key (preserved_order asins) p = order_key (preserved_order asins) q"
  from p obtain i where i: "preserved_order asins (asin p) = Some i" "asins ! i = asin p"
    using preserved_order_in [of "asin p" asins] by auto
  from q obtain j where j: "preserved_order asins (asin q) = Some j" "asins ! j = asin q"
    using preserved_order_in [of "asin q" asins] by auto
  from eq i j have "asin p = asin q"
    by (simp add: order_key_def)
  moreover from assms have "inj_on asin (set rows)"
    by (simp add: unique_asins_def distinct_map)
  ultimately show "p = q"
    using p q by (auto dest: inj_onD)
qed

lemma resolve_Some:
  "resolve rows a = Some p \<Longrightarrow> p \<in> set rows \<and> asin p = a \<and> status p = ACTIVE"
  unfolding resolve_def by (induction rows) (auto split: if_splits)

lemma resolve_row:
  assumes "unique_asins rows" "p \<in> set rows" "status p = ACTIVE"
  shows "resolve rows (asin p) = Some p"
proof (cases "resolve rows (asin p)")
  case None
  with assms(2,3) show ?thesis
    by (auto simp: resolve_def find_None_iff)
next
  case (Some q)
  from resolve_Some [OF Some] have "q \<in> set rows" "asin q = asin p" by simp_all
  moreover from assms(1) have "inj_on asin (set rows)"
    by (simp add: unique_asins_def distinct_map)
  ultimately have "q = p" using assms(2) by (auto dest: inj_onD)
  with Some show ?thesis by simp
qed

lemma set_in_stored_order:
  assumes "unique_asins rows"
  shows "set (in_stored_order rows xs) = {p \<in> set rows. asin p \<in> set xs \<and> status p = ACTIVE}"
proof -
  have "set (in_stored_order rows xs) = {p. \<exists>a \<in> set xs. resolve rows a = Some p}"
    by (force simp: in_stored_order_def map_filter_def image_iff)
  also have "\<dots> = {p \<in> set rows. asin p \<in> set xs \<and> status p = ACTIVE}"
    using resolve_Some resolve_row [OF assms] by fastforce
  finally show ?thesis .
qed

lemma distinct_in_stored_order:
  "distinct xs \<Longrightarrow> distinct (in_stored_order rows xs)"
proof (induction xs)
  case Nil
  then show ?case by (simp add: in_stored_order_def)
next
  case (Cons a xs)
  show ?case
  proof (cases "resolve rows a")
    case None
    with Cons show ?thesis by (simp add: in_stored_order_def)
  next
    case (Some p)
    have "p \<notin> set (in_stored_order rows xs)"
    proof
      assume "p \<in> set (in_stored_order rows xs)"
      then obtain b where "b \<in> set xs" "resolve rows b = Some p"
        by (auto simp: in_stored_order_def map_filter_def)
      with resolve_Some [OF Some] resolve_Some [of rows b p] Cons.prems show False
        by auto
    qed
    with Some Cons show ?thesis by (simp add: in_stored_order_def)
  qed
qed

lemma keys_in_stored_order:
  "map (order_key po) (in_stored_order rows xs)
     = map (\<lambda>a. case po a of None \<Rightarrow> 999 | Some i \<Rightarrow> i) (filter (\<lambda>a. resolve rows a \<noteq> None) xs)"
proof (induction xs)
  case Nil
  then show ?case by (simp add: in_stored_order_def)
next
  case (Cons a xs)
  then show ?case
    by (cases "resolve rows a")
       (auto simp: in_stored_order_def order_key_def dest: resolve_Some)
qed

lemma sorted_fetch_is_stored_order:
  assumes "unique_asins rows"
  shows "get_products c rows = in_stored_order rows (remdups (cached_asins c))"
proof (cases "cached_asins c = []")
  case True
  then show ?thesis by (simp add: get_products_def in_stored_order_def)
next
  case False
  let ?asins = "cached_asins c"
  let ?fetched = "filter (\<lambda>p. asin p \<in> set ?asins \<and> status p = ACTIVE) rows"
  let ?ys = "in_stored_order rows (remdups ?asins)"
  have "distinct rows"
    using assms by (simp add: unique_asins_def distinct_map)
  then have "distinct ?fetched" by simp
  moreover have "distinct ?ys"
    by (rule distinct_in_stored_order) simp
  moreover have "set ?fetched = set ?ys"
    by (auto simp: set_in_stored_order [OF assms])
  ultimately have ms: "mset ?fetched = mset ?ys"
    by (simp only: set_eq_iff_mset_eq_distinct)
  have keys: "map (\<lambda>a. case preserved_order ?asins a of None \<Rightarrow> 999 | Some i \<Rightarrow> i) (remdups ?asins)
      = map (\<lambda>a. the (preserved_order ?asins a)) (remdups ?asins)"
  proof (rule map_cong [OF refl])
    fix a assume "a \<in> set (remdups ?asins)"
    then show "(case preserved_order ?asins a of None \<Rightarrow> 999 | Some i \<Rightarrow> i)
                 = the (preserved_order ?asins a)"
      using preserved_order_in [of a ?asins] by auto
  qed
  have "sorted (map (\<lambda>a. case preserved_order ?asins a of None \<Rightarrow> 999 | Some i \<Rightarrow> i)
           (filter (\<lambda>a. resolve rows a \<noteq> None) (remdups ?asins)))"
    by (rule sorted_filter) (simp only: keys preserved_order_sorted)
  then have "sorted (map (order_key (preserved_order ?asins)) ?ys)"
    by (simp only: keys_in_stored_order)
  with ms order_key_inj [OF assms, of ?asins]
  have "sort_key (order_key (preserved_order ?asins)) ?fetched = ?ys"
    by (rule sort_key_inj_key_eq)
  with False show ?thesis
    by (simp add: get_products_def)
qed


lemma subseq_remdups_self: "subseq (remdups xs) xs"
  by (induction xs) (auto intro: subseq_Cons')

lemma asins_in_stored_order:
  "map asin (in_stored_order rows xs) = filter (\<lambda>a. resolve rows a \<noteq> None) xs"
proof (induction xs)
  case Nil
  then show ?case by (simp add: in_stored_order_def)
next
  case (Cons a xs)
  then show ?case
    by (cases "resolve rows a") (auto simp: in_stored_order_def dest: resolve_Some)
qed

lemma resolve_permuted:
  assumes "unique_asins rows" "mset fetched = mset rows"
  shows "resolve fetched a = resolve rows a"
proof -
  from assms(2) have "mset (map asin fetched) = mset (map asin rows)" by simp
  with assms(1) have u: "unique_asins fetched"
    unfolding unique_asins_def by (metis mset_eq_imp_distinct_iff)
  from assms(2) have s: "set fetched = set rows" by (rule mset_eq_setD)
  show ?thesis
  proof (cases "resolve rows a")
    case None
    then have "\<not> (\<exists>p \<in> set rows. asin p = a \<and> status p = ACTIVE)"
      by (auto simp: resolve_def find_None_iff)
    with s have "resolve fetched a = None"
      by (auto simp: resolve_def find_None_iff)
    with None show ?thesis by simp
  next
    case (Some p)
    from resolve_Some [OF Some] s have "p \<in> set fetched" "status p = ACTIVE" "asin p = a"
      by simp_all
    with resolve_row [OF u, of p] Some show ?thesis by simp
  qed
qed

text \<open>
  Claim C5.  Let the product table hold each identifier at most once (the column is
  unique), and let \<open>fetched\<close> be its rows in any order.  Then \<open>get_products\<close> returns
  the ACTIVE rows of the stored identifiers in the stored list's order, whatever the order
  of \<open>fetched\<close>, and an identifier without an ACTIVE row is left out; nothing is raised.
  When an identifier is stored more than once, its row appears once, at the place of the
  last occurrence (\<open>remdups\<close> keeps that one); in every case the identifiers of the result
  form a subsequence of the stored list.
\<close>

theorem get_products_in_stored_order:
  assumes "unique_asins rows" and "mset fetched = mset rows"
  shows "get_products c fetched = in_stored_order rows (remdups (cached_asins c))
    \<and> (distinct (cached_asins c) \<longrightarrow> get_products c fetched = in_stored_order rows (cached_asins c))
    \<and> subseq (map asin (get_products c fetched)) (cached_asins c)"
proof -
  from assms(2) have "mset (map asin fetched) = mset (map asin rows)" by simp
  with assms(1) have u: "unique_asins fetched"
    unfolding unique_asins_def by (metis mset_eq_imp_distinct_iff)
  have "in_stored_order fetched xs = in_stored_order rows xs" for xs
    unfolding in_stored_order_def using resolve_permuted [OF assms] by presburger
  with sorted_fetch_is_stored_order [OF u, of c]
  have eq: "get_products c fetched = in_stored_order rows (remdups (cached_asins c))"
    by simp
  have "subseq (filter (\<lambda>a. resolve rows a \<noteq> None) (remdups (cached_asins c))) (remdups (cached_asins c))"
    by simp
  then have "subseq (map asin (get_products c fetched)) (cached_asins c)"
    unfolding eq asins_in_stored_order
    using subseq_remdups_self [of "cached_asins c"] by (rule subseq_order.trans)
  with eq show ?thesis by (simp add: distinct_remdups_id)
qed

theorem get_products_in_stored_order_witness:
  "get_products (cache_row [''C'', ''A'', ''B'', ''Z''] [] 0)
     [product_row ''A'' 4 900 True ACTIVE, product_row ''B'' (9 / 2) 300 True DISCONTINUED,
      product_row ''C'' (9 / 2) 300 True ACTIVE, product_row ''D'' (9 / 2) 500 True ACTIVE]
   = [product_row ''C'' (9 / 2) 300 True ACTIVE, product_row ''A'' 4 900 True ACTIVE]"
proof -
  let ?rows = "[product_row ''D'' (9 / 2) 500 True ACTIVE, product_row ''C'' (9 / 2) 300 True ACTIVE,
      product_row ''B'' (9 / 2) 300 True DISCONTINUED, product_row ''A'' 4 900 True ACTIVE]"
  let ?fetched = "[product_row ''A'' 4 900 True ACTIVE, product_row ''B'' (9 / 2) 300 True DISCONTINUED,
      product_row ''C'' (9 / 2) 300 True ACTIVE, product_row ''D'' (9 / 2) 500 True ACTIVE]"
  let ?c = "cache_row [''C'', ''A'', ''B'', ''Z''] [] 0"
  have u: "unique_asins ?rows"
    by (simp add: unique_asins_def product_row_def)
  have m: "mset ?fetched = mset ?rows"
    by (simp add: add_mset_commute)
  have d: "distinct (cached_asins ?c)"
    by (simp add: cache_row_def)
  have r: "in_stored_order ?rows (cached_asins ?c)
          = [product_row ''C'' (9 / 2) 300 True ACTIVE, product_row ''A'' 4 900 True ACTIVE]"
    by (simp add: in_stored_order_def resolve_def cache_row_def product_row_def)
  from get_products_in_stored_order [OF u m, of ?c] d
  have "get_products ?c ?fetched = in_stored_order ?rows (cached_asins ?c)"
    by blast
  then show ?thesis
    using r by (rule trans)
qed

section \<open>Properties of the ranker\<close>



























subsection \<open>Rounding is monotone\<close>




lemma pow2_nat: "pow2 (int n) = 2 ^ n"
  by (simp add: pow2_def)




















subsection \<open>The weighted values follow the fields\<close>








lemma none_value_raises:
  "rank_products
     [\<lparr>d_asin = Some ''X'', d_rating = Some (PyFloat (Fin 4)), d_review_count = Some (PyInt 1),
       d_bsr_rank = Some PyNone\<rparr>] None = Inl TypeError"
  by code_simp




section \<open>Properties of the fallback resolver\<close>

lemma order_by_desc_sorted: "sorted_wrt (\<lambda>x y. k x \<ge> k y) (order_by_desc k xs)"
proof -
  have "sorted (map k (sort_key k (rev xs)))" by simp
  then have "sorted_wrt (\<lambda>x y. k x \<le> k y) (sort_key k (rev xs))"
    by (simp add: sorted_map)
  then show ?thesis
    by (simp add: order_by_desc_def sorted_wrt_rev)
qed

lemma mset_order_by_desc: "mset (order_by_desc k xs) = mset xs"
  by (simp add: order_by_desc_def)

lemma top_key_ge: "top_key p \<ge> top_key q \<longleftrightarrow> top_order p q"
  by (auto simp: top_key_def top_order_def less_eq_prod_def)

text \<open>
  Claim C8.  When the category has a parent whose cache row holds a non-empty identifier
  list, \<open>get_fallback_products\<close> returns the parent's resolved products cut to
  \<open>limit\<close>.  Otherwise it returns the first \<open>limit\<close> entries of a list that holds
  exactly the ACTIVE in-stock products, ordered by rating descending and then review
  count descending.
\<close>

theorem fallback_resolution:
  "(parent category = Some pid \<and> affiliate_product_cache db pid = Some pc \<and> cached_asins pc \<noteq> []
      \<longrightarrow> get_fallback_products db category limit = take limit (get_products pc (products db)))
   \<and> ((\<forall>pid pc. parent category = Some pid \<and> affiliate_product_cache db pid = Some pc
                   \<longrightarrow> cached_asins pc = [])
      \<longrightarrow> (\<exists>top. get_fallback_products db category limit = take limit top
                 \<and> mset top = mset (filter (\<lambda>p. status p = ACTIVE \<and> in_stock p) (products db))
                 \<and> sorted_wrt top_order top))"
proof (intro conjI impI)
  assume "parent category = Some pid \<and> affiliate_product_cache db pid = Some pc \<and> cached_asins pc \<noteq> []"
  then show "get_fallback_products db category limit = take limit (get_products pc (products db))"
    by (simp add: get_fallback_products_def parent_attempt_def)
next
  let ?top = "order_by_desc top_key (filter (\<lambda>p. status p = ACTIVE \<and> in_stock p) (products db))"
  assume "\<forall>pid pc. parent category = Some pid \<and> affiliate_product_cache db pid = Some pc
            \<longrightarrow> cached_asins pc = []"
  then have "parent_attempt db category limit = None"
    by (auto simp: parent_attempt_def split: option.splits)
  then have "get_fallback_products db category limit = take limit ?top"
    by (simp add: get_fallback_products_def get_top_products_def)
  moreover have "mset ?top = mset (filter (\<lambda>p. status p = ACTIVE \<and> in_stock p) (products db))"
    by (rule mset_order_by_desc)
  moreover have "sorted_wrt top_order ?top"
    using order_by_desc_sorted [of top_key] by (simp add: top_key_ge)
  ultimately show "\<exists>top. get_fallback_products db category limit = take limit top
                 \<and> mset top = mset (filter (\<lambda>p. status p = ACTIVE \<and> in_stock p) (products db))
                 \<and> sorted_wrt top_order top"
    by blast
qed

lemma fallback_global_example:
  "get_fallback_products example_db (category_row 2 (Some 1) ''N2'' False) 4
     = [product_row ''D'' (9 / 2) 500 True ACTIVE, product_row ''C'' (9 / 2) 300 True ACTIVE,
        product_row ''A'' 4 900 True ACTIVE]"
  by code_simp

theorem fallback_resolution_witness:
  "(\<exists>top. get_fallback_products example_db (category_row 2 (Some 1) ''N2'' False) 4 = take 4 top
       \<and> mset top = mset (filter (\<lambda>p. status p = ACTIVE \<and> in_stock p) (products example_db))
       \<and> sorted_wrt top_order top)
   \<and> get_fallback_products example_db (category_row 3 (Some 2) [] False) 1
     = [product_row ''C'' (9 / 2) 300 True ACTIVE]"
proof -
  let ?pc = "cache_row [''C'', ''A'', ''B'', ''Z''] [] 0"
  have none: "\<forall>pid pc. parent (category_row 2 (Some 1) ''N2'' False) = Some pid
                \<and> affiliate_product_cache example_db pid = Some pc \<longrightarrow> cached_asins pc = []"
    by (simp add: category_row_def example_db_def)
  have some: "parent (category_row 3 (Some 2) [] False) = Some 2
                \<and> affiliate_product_cache example_db 2 = Some ?pc \<and> cached_asins ?pc \<noteq> []"
    by (simp add: category_row_def example_db_def cache_row_def)
  from fallback_resolution [of "category_row 2 (Some 1) ''N2'' False" 0 example_db ?pc 4] none
  have global: "\<exists>top. get_fallback_products example_db (category_row 2 (Some 1) ''N2'' False) 4 = take 4 top
       \<and> mset top = mset (filter (\<lambda>p. status p = ACTIVE \<and> in_stock p) (products example_db))
       \<and> sorted_wrt top_order top"
    by blast
  from fallback_resolution [of "category_row 3 (Some 2) [] False" 2 example_db ?pc 1] some
  have "get_fallback_products example_db (category_row 3 (Some 2) [] False) 1
          = take 1 (get_products ?pc (products example_db))"
    by blast
  moreover have "take 1 (get_products ?pc (products example_db)) = [product_row ''C'' (9 / 2) 300 True ACTIVE]"
    by code_simp
  ultimately show ?thesis using global by simp
qed

section \<open>Properties of the refresh orchestrator\<close>

subsection \<open>What one refresh touches\<close>

lemma refresh_frame:
  assumes "refresh_category_cache api now c db = Inr db'"
  shows "categories db' = categories db" and "products db' = products db"
    and "filter_rules_of db' = filter_rules_of db"
    and "d \<noteq> pk c \<Longrightarrow> affiliate_product_cache db' d = affiliate_product_cache db d"
  using assms
  by (auto simp: refresh_category_cache_def Let_def split: option.splits sum.splits)

lemma row_after_refresh_cong:
  assumes "filter_rules_of db1 = filter_rules_of db2"
    and "affiliate_product_cache db1 (pk c) = affiliate_product_cache db2 (pk c)"
  shows "row_after_refresh api now c db1 = row_after_refresh api now c db2"
  using assms
  by (auto simp: row_after_refresh_def refresh_category_cache_def Let_def
           split: option.splits sum.splits)

lemma row_after_refresh_written:
  assumes "filter_rules_of db (pk c) = Some fr"
    and "api (category_node_of c) (min_rating fr, min_review_count fr) = Inr fetched"
    and "rank_products fetched None = Inr ranked"
  shows "row_after_refresh api now c db
           = Some (update_or_create (affiliate_product_cache db (pk c)) (extract_asins ranked) now)"
  using assms by (simp add: row_after_refresh_def refresh_category_cache_def Let_def)

lemma raises_iff:
  "raises api now c db \<longleftrightarrow>
     (\<exists>fr. filter_rules_of db (pk c) = Some fr
        \<and> ((\<exists>e. api (category_node_of c) (min_rating fr, min_review_count fr) = Inl e)
           \<or> (\<exists>fetched e. api (category_node_of c) (min_rating fr, min_review_count fr) = Inr fetched
                \<and> rank_products fetched None = Inl e)))"
  by (auto simp: raises_def refresh_category_cache_def Let_def split: option.splits sum.splits)

lemma raises_cong:
  "filter_rules_of db1 = filter_rules_of db2 \<Longrightarrow> raises api now c db1 = raises api now c db2"
  by (simp add: raises_iff)

lemma raises_keeps_row:
  "raises api now c db \<Longrightarrow> row_after_refresh api now c db = affiliate_product_cache db (pk c)"
  by (auto simp: raises_def row_after_refresh_def split: sum.splits)

subsection \<open>The batch loop\<close>

lemma refresh_loop_invariant:
  assumes "distinct (map pk cs)"
    and "refresh_loop api clock cs (db, counts) = (db', counts')"
  shows "filter_rules_of db' = filter_rules_of db
    \<and> (\<forall>d. d \<notin> pk ` set cs \<longrightarrow> affiliate_product_cache db' d = affiliate_product_cache db d)
    \<and> (\<forall>c \<in> set cs. affiliate_product_cache db' (pk c) = row_after_refresh api (clock (pk c)) c db)
    \<and> errors counts' = errors counts + length (filter (\<lambda>c. raises api (clock (pk c)) c db) cs)"
  using assms
proof (induction cs arbitrary: db counts)
  case Nil
  then show ?case by simp
next
  case (Cons a cs)
  from Cons.prems(1) have dist: "distinct (map pk cs)" and fresh: "pk a \<notin> pk ` set cs"
    by simp_all
  show ?case
  proof (cases "refresh_category_cache api (clock (pk a)) a db")
    case (Inl e)
    with Cons.prems(2)
    have loop: "refresh_loop api clock cs (db, counts\<lparr>errors := errors counts + 1\<rparr>) = (db', counts')"
      by simp
    note IH = Cons.IH [OF dist loop]
    from Inl have ra: "raises api (clock (pk a)) a db"
      by (simp add: raises_def)
    from Inl have row: "row_after_refresh api (clock (pk a)) a db = affiliate_product_cache db (pk a)"
      by (simp add: row_after_refresh_def)
    from IH fresh have "affiliate_product_cache db' (pk a) = affiliate_product_cache db (pk a)"
      by blast
    with IH ra row show ?thesis by auto
  next
    case (Inr db1)
    with Cons.prems(2)
    have loop: "refresh_loop api clock cs (db1, counts\<lparr>refreshed := refreshed counts + 1\<rparr>) = (db', counts')"
      by simp
    note IH = Cons.IH [OF dist loop]
    note fr = refresh_frame [OF Inr]
    from Inr have ra: "\<not> raises api (clock (pk a)) a db"
      by (simp add: raises_def)
    from Inr have row: "row_after_refresh api (clock (pk a)) a db = affiliate_product_cache db1 (pk a)"
      by (simp add: row_after_refresh_def)
    from IH fresh have head: "affiliate_product_cache db' (pk a) = affiliate_product_cache db1 (pk a)"
      by blast
    have rest: "affiliate_product_cache db' (pk c) = row_after_refresh api (clock (pk c)) c db"
      if "c \<in> set cs" for c
    proof -
      from that fresh have "pk c \<noteq> pk a" by (metis imageI)
      then have "affiliate_product_cache db1 (pk c) = affiliate_product_cache db (pk c)"
        by (rule fr(4))
      with fr(3)
      have "row_after_refresh api (clock (pk c)) c db1 = row_after_refresh api (clock (pk c)) c db"
        by (rule row_after_refresh_cong)
      with IH that show ?thesis by simp
    qed
    have other: "affiliate_product_cache db' d = affiliate_product_cache db d"
      if "d \<notin> pk ` set (a # cs)" for d
    proof -
      from that have "d \<noteq> pk a" "d \<notin> pk ` set cs" by auto
      with IH fr(4) [of d] show ?thesis by simp
    qed
    have cnt: "filter (\<lambda>c. raises api (clock (pk c)) c db1) cs
                 = filter (\<lambda>c. raises api (clock (pk c)) c db) cs"
      using raises_cong [OF fr(3)] by simp
    from IH fr(3) have "filter_rules_of db' = filter_rules_of db" by simp
    moreover from IH cnt ra
    have "errors counts' = errors counts + length (filter (\<lambda>c. raises api (clock (pk c)) c db) (a # cs))"
      by simp
    ultimately show ?thesis
      using head row rest other by auto
  qed
qed

lemma select_categories_distinct:
  assumes "distinct (map pk (categories db))"
  shows "distinct (map pk (select_categories db category_id tier))"
proof -
  have f: "distinct (map pk (filter P (categories db)))" for P
    using assms by (rule distinct_map_filter)
  then have "distinct (take 20 (map pk (filter P (categories db))))" for P
    by (rule distinct_take)
  then have t: "distinct (map pk (take 20 (filter P (categories db))))" for P
    by (simp only: take_map)
  show ?thesis
    unfolding select_categories_def using f t by (simp split: option.splits)
qed

lemma placeholder_never_raises: "\<not> raises placeholder_client now c db"
  by (simp add: raises_iff placeholder_client_def rank_products_def effective_weights_def)

text \<open>
  Isolation within a batch.  Every selected category ends with the row of its own
  refresh: the written row when it has a rule row, the product source answers and the
  ranker returns; the row it had, when its refresh raises.  The \<open>errors\<close> counter of
  the summary counts the refreshes that raised.  (Primary keys are distinct in the
  category table.)
\<close>

lemma batch_rows:
  assumes "distinct (map pk (categories db))"
    and "refresh_affiliate_products api clock category_id tier db = (db', counts')"
    and "c \<in> set (select_categories db category_id tier)"
  shows "raises api (clock (pk c)) c db
           \<Longrightarrow> affiliate_product_cache db' (pk c) = affiliate_product_cache db (pk c)"
    and "filter_rules_of db (pk c) = Some fr
           \<Longrightarrow> api (category_node_of c) (min_rating fr, min_review_count fr) = Inr fetched
           \<Longrightarrow> rank_products fetched None = Inr ranked
           \<Longrightarrow> affiliate_product_cache db' (pk c)
                 = Some (update_or_create (affiliate_product_cache db (pk c))
                           (extract_asins ranked) (clock (pk c)))"
    and "errors counts'
           = length (filter (\<lambda>c. raises api (clock (pk c)) c db)
                       (select_categories db category_id tier))"
proof -
  let ?cs = "select_categories db category_id tier"
  have d: "distinct (map pk ?cs)"
    using assms(1) by (rule select_categories_distinct)
  have l: "refresh_loop api clock ?cs (db, \<lparr>refreshed = 0, errors = 0\<rparr>) = (db', counts')"
    using assms(2) by (simp add: refresh_affiliate_products_def)
  note inv = refresh_loop_invariant [OF d l]
  from inv assms(3)
  have row: "affiliate_product_cache db' (pk c) = row_after_refresh api (clock (pk c)) c db"
    by blast
  show "raises api (clock (pk c)) c db
           \<Longrightarrow> affiliate_product_cache db' (pk c) = affiliate_product_cache db (pk c)"
    using row by (simp add: raises_keeps_row)
  show "filter_rules_of db (pk c) = Some fr
           \<Longrightarrow> api (category_node_of c) (min_rating fr, min_review_count fr) = Inr fetched
           \<Longrightarrow> rank_products fetched None = Inr ranked
           \<Longrightarrow> affiliate_product_cache db' (pk c)
                 = Some (update_or_create (affiliate_product_cache db (pk c))
                           (extract_asins ranked) (clock (pk c)))"
    using row by (simp add: row_after_refresh_written)
  show "errors counts'
           = length (filter (\<lambda>c. raises api (clock (pk c)) c db)
                       (select_categories db category_id tier))"
    using inv by simp
qed

text \<open>
  Claim C2, on the code.  Three categories with rule rows are refreshed in one batch at
  time 1000 (a fourth has no rule row), and the product source raises for category 2.
  The batch goes on: the caches of categories 1 and 3 are written, and the summary counts
  one error.  But nothing is recorded on the cache row of category 2: the row is exactly
  the one it was, its identifier list untouched as the claim says, and its
  \<open>error_count\<close> still 0 and \<open>last_error\<close> still empty, where the claim has the
  count incremented by 1 and the message stored.
\<close>

lemma example_ranked:
  "rank_products [product_entry ''P'' (9 / 2) 300, product_entry ''Q'' (9 / 2) 500] None
     = Inr [product_entry ''Q'' (9 / 2) 500, product_entry ''P'' (9 / 2) 300]"
  by code_simp

lemma example_selection:
  "tier \<noteq> ''top'' \<Longrightarrow> select_categories example_db None tier = categories example_db"
  by (simp add: select_categories_def example_db_def category_row_def)

lemma example_written:
  assumes "c = category_row 1 None ''N1'' True \<or> c = category_row 3 (Some 1) [] False"
    and "tier \<noteq> ''top''"
  shows "affiliate_product_cache
           (fst (refresh_affiliate_products example_api (\<lambda>c. 1000) None tier example_db)) (pk c)
         = Some \<lparr>cached_asins = [''Q'', ''P''], last_updated = 1000, next_refresh = Some 87400,
                 is_fresh = True, product_count = 2, uses_parent_fallback = False,
                 parent_fallback_asins = [], last_error = [], error_count = 0\<rparr>"
proof -
  let ?out = "refresh_affiliate_products example_api (\<lambda>c. 1000) None tier example_db"
  let ?ranked = "[product_entry ''Q'' (9 / 2) 500, product_entry ''P'' (9 / 2) 300]"
  have d: "distinct (map pk (categories example_db))"
    by (simp add: example_db_def category_row_def)
  have l: "?out = (fst ?out, snd ?out)"
    by simp
  have "c \<in> set (categories example_db)"
    using assms(1) by (auto simp: example_db_def)
  then have m: "c \<in> set (select_categories example_db None tier)"
    by (simp only: example_selection [OF assms(2)])
  have r: "filter_rules_of example_db (pk c) = Some default_filter"
    using assms(1) by (auto simp: example_db_def category_row_def)
  have a: "example_api (category_node_of c)
             (min_rating default_filter, min_review_count default_filter)
           = Inr [product_entry ''P'' (9 / 2) 300, product_entry ''Q'' (9 / 2) 500]"
    using assms(1) by (auto simp: example_api_def category_node_of_def category_row_def)
  have x: "extract_asins ?ranked = [''Q'', ''P'']"
    by (simp add: extract_asins_def product_entry_def)
  have "update_or_create (affiliate_product_cache example_db (pk c)) [''Q'', ''P''] 1000
          = \<lparr>cached_asins = [''Q'', ''P''], last_updated = 1000, next_refresh = Some 87400,
             is_fresh = True, product_count = 2, uses_parent_fallback = False,
             parent_fallback_asins = [], last_error = [], error_count = 0\<rparr>"
    using assms(1)
    by (auto simp: example_db_def category_row_def cache_row_def update_or_create_def
          timedelta_days_def)
  with batch_rows(2) [OF d l m r a example_ranked] show ?thesis
    by (simp add: x)
qed



subsection \<open>A category without a rule row\<close>

text \<open>
  Claim C3, as the code has it.  For a category that has no rule row,
  \<open>FilterService.get_filter_rules\<close> synthesizes the rule with the documented defaults
  (minimum rating 4.0, minimum review count 200, in-stock only).  The refresh pipeline
  does not use it: \<open>_refresh_category_cache\<close> returns at once, raising nothing and
  leaving the database, and so the category's cache, as it was.
\<close>

theorem missing_rule_skips_refresh:
  assumes "filter_rules_of db (pk category) = None"
  shows "get_filter_rules db category = default_filter
    \<and> min_rating default_filter = 4
    \<and> min_review_count default_filter = 200
    \<and> in_stock_only default_filter
    \<and> refresh_category_cache api now category db = Inr db"
  using assms
  by (simp add: get_filter_rules_def default_filter_def refresh_category_cache_def)

theorem missing_rule_skips_refresh_witness:
  "get_filter_rules example_db (category_row 4 None ''N4'' False) = default_filter
   \<and> refresh_category_cache example_api 1000 (category_row 4 None ''N4'' False) example_db
       = Inr example_db"
proof -
  have "filter_rules_of example_db (pk (category_row 4 None ''N4'' False)) = None"
    by (simp add: example_db_def category_row_def)
  from missing_rule_skips_refresh [OF this, of example_api 1000] show ?thesis
    by simp
qed

text \<open>
  The claim as stated fails: category 4 has no rule row, the product source would answer
  for its node, and yet a refresh of category 4 leaves it without a cache row.
\<close>

theorem missing_rule_no_cache_written:
  "example_api (category_node_of (category_row 4 None ''N4'' False))
       (min_rating default_filter, min_review_count default_filter)
     = Inr [product_entry ''P'' (9 / 2) 300, product_entry ''Q'' (9 / 2) 500]
   \<and> affiliate_product_cache
       (fst (refresh_affiliate_products example_api (\<lambda>c. 1000) (Some 4) ''all'' example_db)) 4
     = None"
  by code_simp

subsection \<open>The cache write\<close>

lemma length_take_20: "length (take 20 xs) \<le> 20"
  by simp

text \<open>The error fields stay at their defaults through every writer of cache rows.\<close>

lemma update_or_create_untouched:
  assumes "\<forall>old. existing = Some old \<longrightarrow> untouched_error_fields old"
  shows "untouched_error_fields (update_or_create existing asins now)"
  using assms by (cases existing) (simp_all add: update_or_create_def untouched_error_fields_def)

lemma refresh_error_free:
  assumes "error_free db" "refresh_category_cache api now c db = Inr db'"
  shows "error_free db'"
proof -
  have "\<forall>old. affiliate_product_cache db (pk c) = Some old \<longrightarrow> untouched_error_fields old"
    using assms(1) by (simp add: error_free_def)
  then have "untouched_error_fields (update_or_create (affiliate_product_cache db (pk c)) asins now)"
    for asins
    by (rule update_or_create_untouched)
  with assms show ?thesis
    by (auto simp: error_free_def refresh_category_cache_def Let_def
             split: option.splits sum.splits if_splits)
qed

lemma refresh_loop_error_free:
  "error_free db \<Longrightarrow> error_free (fst (refresh_loop api clock cs (db, counts)))"
proof (induction cs arbitrary: db counts)
  case Nil
  then show ?case by simp
next
  case (Cons a cs)
  then show ?case
    by (cases "refresh_category_cache api (clock (pk a)) a db")
       (auto dest: refresh_error_free)
qed

lemma batch_error_free:
  "error_free db
     \<Longrightarrow> error_free (fst (refresh_affiliate_products api clock category_id tier db))"
  by (simp add: refresh_affiliate_products_def refresh_loop_error_free)

lemma cleanup_error_free:
  "error_free db \<Longrightarrow> error_free (cleanup_expired_categories now db)"
  by (auto simp: error_free_def cleanup_expired_categories_def untouched_error_fields_def
           split: if_splits)

lemma no_rows_error_free:
  "affiliate_product_cache db = Map.empty \<Longrightarrow> error_free db"
  by (simp add: error_free_def)

text \<open>
  Claim C4, as the code has it.  When the category has a rule row, the product source
  answers and the ranker returns, the refresh writes the category's cache row and no
  other: the identifier list becomes the first 20 identifiers of the ranked answer, the
  freshness flag true, \<open>last_updated\<close> the write time and \<open>next_refresh\<close> the write
  time plus one day, whatever the category's tier.  After the write the error count is 0
  and the last error message is empty, for every row that the code can have produced
  before (its error fields are untouched, see above).
\<close>

theorem cache_write_effect:
  assumes "filter_rules_of db (pk category) = Some rules"
    and "api (category_node_of category) (min_rating rules, min_review_count rules) = Inr fetched"
    and "rank_products fetched None = Inr ranked"
    and "\<forall>old. affiliate_product_cache db (pk category) = Some old \<longrightarrow> untouched_error_fields old"
  shows "\<exists>db' row.
      refresh_category_cache api now category db = Inr db'
    \<and> affiliate_product_cache db' (pk category) = Some row
    \<and> cached_asins row = take 20 (extract_asins ranked)
    \<and> length (cached_asins row) \<le> 20
    \<and> product_count row = int (length (extract_asins ranked))
    \<and> is_fresh row
    \<and> last_updated row = now
    \<and> next_refresh row = Some (now + 86400)
    \<and> error_count row = 0
    \<and> last_error row = []
    \<and> (\<forall>d. d \<noteq> pk category \<longrightarrow> affiliate_product_cache db' d = affiliate_product_cache db d)
    \<and> filter_rules_of db' = filter_rules_of db
    \<and> products db' = products db
    \<and> categories db' = categories db"
proof -
  let ?asins = "extract_asins ranked"
  let ?row = "update_or_create (affiliate_product_cache db (pk category)) ?asins now"
  let ?db' = "db\<lparr>affiliate_product_cache := (affiliate_product_cache db)(pk category \<mapsto> ?row)\<rparr>"
  have run: "refresh_category_cache api now category db = Inr ?db'"
    using assms(1-3) by (simp add: refresh_category_cache_def Let_def)
  have row: "cached_asins ?row = take 20 ?asins" "product_count ?row = int (length ?asins)"
    "is_fresh ?row" "last_updated ?row = now" "next_refresh ?row = Some (now + 86400)"
    by (simp_all add: update_or_create_def timedelta_days_def split: option.splits)
  have "untouched_error_fields ?row"
    using assms(4) by (rule update_or_create_untouched)
  then have err: "error_count ?row = 0" "last_error ?row = []"
    by (simp_all add: untouched_error_fields_def)
  have len: "length (cached_asins ?row) \<le> 20"
    unfolding row(1) by (rule length_take_20)
  have here: "affiliate_product_cache ?db' (pk category) = Some ?row"
    by simp
  have frame: "\<forall>d. d \<noteq> pk category \<longrightarrow> affiliate_product_cache ?db' d = affiliate_product_cache db d"
    "filter_rules_of ?db' = filter_rules_of db" "products ?db' = products db"
    "categories ?db' = categories db"
    by simp_all
  from run here row err len frame show ?thesis
    by blast
qed

theorem cache_write_effect_witness:
  "\<exists>db' row.
      refresh_category_cache example_api 1000 (category_row 3 (Some 1) [] False) example_db = Inr db'
    \<and> affiliate_product_cache db' 3 = Some row
    \<and> cached_asins row = [''Q'', ''P'']
    \<and> is_fresh row
    \<and> next_refresh row = Some 87400
    \<and> error_count row = 0
    \<and> last_error row = []"
proof -
  let ?c = "category_row 3 (Some 1) [] False"
  let ?fetched = "[product_entry ''P'' (9 / 2) 300, product_entry ''Q'' (9 / 2) 500]"
  let ?ranked = "[product_entry ''Q'' (9 / 2) 500, product_entry ''P'' (9 / 2) 300]"
  have k: "pk ?c = 3"
    by (simp add: category_row_def)
  have r: "filter_rules_of example_db (pk ?c) = Some default_filter"
    by (simp add: example_db_def category_row_def)
  have a: "example_api (category_node_of ?c)
             (min_rating default_filter, min_review_count default_filter) = Inr ?fetched"
    by (simp add: example_api_def category_node_of_def category_row_def)
  have old: "\<forall>old. affiliate_product_cache example_db (pk ?c) = Some old
               \<longrightarrow> untouched_error_fields old"
    by (simp add: example_db_def category_row_def cache_row_def untouched_error_fields_def)
  have x: "extract_asins ?ranked = [''Q'', ''P'']"
    by (simp add: extract_asins_def product_entry_def)
  from cache_write_effect [where api = example_api and now = 1000, OF r a example_ranked old]
  show ?thesis
    unfolding k x by auto
qed

text \<open>
  The claim as stated fails: category 3 is not featured, so it is refreshed by the run of
  the tier \<open>other\<close>, whose period is seven days.  After the write at time 1000 its
  next refresh is one day later (87400), not seven (605800).
\<close>

theorem next_refresh_ignores_tier:
  "is_featured (category_row 3 (Some 1) [] False) = False
   \<and> map_option next_refresh
       (affiliate_product_cache
          (fst (refresh_affiliate_products example_api (\<lambda>c. 1000) None ''other'' example_db)) 3)
     = Some (Some 87400)
   \<and> 1000 + beat_schedule ''other'' = 605800"
  using example_written [of "category_row 3 (Some 1) [] False" "''other''"]
  by (simp add: category_row_def beat_schedule_def)

end
